theory Spec2Isabelle
  imports Main
begin

section \<open>Python strings\<close>

text \<open>
  A Python \<open>str\<close> is a sequence of Unicode code points and \<open>len\<close> counts code points,
  so a string is modelled as a list of code points. \<open>lit\<close> turns an ASCII literal of
  the source into such a list.
\<close>

type_synonym pystr = "nat list"

definition lit :: "string \<Rightarrow> pystr" where
  "lit s = map of_char s"

text \<open>
  \<open>str.strip()\<close> without argument removes leading and trailing whitespace, where
  whitespace is what \<open>str.isspace\<close> accepts: U+0009..U+000D, U+001C..U+0020, U+0085,
  U+00A0, U+1680, U+2000..U+200A, U+2028, U+2029, U+202F, U+205F and U+3000.
\<close>

definition isspace :: "nat \<Rightarrow> bool" where
  "isspace c \<longleftrightarrow>
     (9 \<le> c \<and> c \<le> 13) \<or> (28 \<le> c \<and> c \<le> 32) \<or> c = 133 \<or> c = 160 \<or> c = 5760 \<or>
     (8192 \<le> c \<and> c \<le> 8202) \<or> c = 8232 \<or> c = 8233 \<or> c = 8239 \<or> c = 8287 \<or> c = 12288"

definition lstrip :: "pystr \<Rightarrow> pystr" where
  "lstrip s = dropWhile isspace s"

definition rstrip :: "pystr \<Rightarrow> pystr" where
  "rstrip s = rev (dropWhile isspace (rev s))"

definition strip :: "pystr \<Rightarrow> pystr" where
  "strip s = rstrip (lstrip s)"

text \<open>The separator \<open>'|'\<close> of the url line, U+007C.\<close>

definition pipe :: nat where
  "pipe = 124"

text \<open>
  \<open>s.split(sep, 1)\<close> for a one-character separator: at most one split, at the first
  occurrence; a string without the separator comes back as the only element.
\<close>

definition split1 :: "nat \<Rightarrow> pystr \<Rightarrow> pystr list" where
  "split1 sep s =
     (if sep \<in> set s
      then [takeWhile (\<lambda>c. c \<noteq> sep) s, tl (dropWhile (\<lambda>c. c \<noteq> sep) s)]
      else [s])"

definition startswith :: "pystr \<Rightarrow> pystr \<Rightarrow> bool" where
  "startswith s p \<longleftrightarrow> take (length p) s = p"

text \<open>
  Truth value of a field that holds \<open>None\<close> or a string, as in \<open>if post['title']:\<close>:
  \<open>None\<close> and the empty string are false.
\<close>

fun truthy :: "pystr option \<Rightarrow> bool" where
  "truthy None = False"
| "truthy (Some s) = (s \<noteq> [])"

section \<open>Data model\<close>

text \<open>
  The dictionary that \<open>new_post\<close> stores under \<open>context.user_data['post']\<close>. The field
  \<open>image\<close> is named \<open>image_file\<close> here (it holds the photo's \<open>file_id\<close>).
\<close>

record post =
  image_file :: "pystr option"
  title :: "pystr option"
  description :: "pystr option"
  url :: "pystr option"
  button_text :: "pystr option"

text \<open>
  \<open>context.user_data\<close> only ever holds the key \<open>'post'\<close>: it is \<open>Some p\<close> when the key
  is there and \<open>None\<close> after \<open>user_data.clear()\<close> (or before the first \<open>new_post\<close>).
  Reading \<open>user_data['post']\<close> when the key is absent raises \<open>KeyError\<close>.
\<close>

type_synonym user_data = "post option"

datatype py_error = KeyError

text \<open>The conversation states of the source, and \<open>ConversationHandler.END\<close>.\<close>

datatype conv_state =
  SELECTING_ACTION | UPLOADING_IMAGE | ENTERING_TITLE | ENTERING_DESCRIPTION
  | ENTERING_URL | PREVIEW | END

text \<open>One entry of \<open>chat_storage.chats\<close>, as \<open>add_chat\<close> writes it.\<close>

record chat_info =
  chat_title :: pystr
  chat_type :: pystr
  added_at :: pystr

text \<open>
  The registry is a Python dict keyed by \<open>str(chat_id)\<close>; iteration follows insertion
  order, so a snapshot is the list of its items.
\<close>

type_synonym chats = "(pystr \<times> chat_info) list"

text \<open>An \<open>InlineKeyboardButton(post['button_text'], url=post['url'])\<close>.\<close>

record inline_button =
  btn_text :: "pystr option"
  btn_url :: "pystr option"

text \<open>
  What the bot sends back to the operator. The fixed wording of each message is
  abstracted to a constructor; the values that the source formats into the text are
  kept as arguments.
\<close>

datatype reply =
  Step1_ImageUpload
  | ImageReceived
  | Step2_PostTitle
  | TitleTooLong
  | TitleSaved
  | Step3_Description
  | DescriptionTooLong
  | DescriptionSaved
  | Step4_Button
  | InvalidFormat
  | InvalidUrl
  | ButtonSaved
  | PostPreview "pystr option" "pystr option" nat bool bool "inline_button option"
  | NoChatsAvailable
  | Broadcasting nat
  | BroadcastComplete nat nat nat "pystr list" "nat option"
  | OperationCancelled
  | Welcome
  | WelcomeBack
  | HelpGuide
  | ChatList nat

text \<open>The calls made on \<open>context.bot\<close> during a broadcast, in order.\<close>

datatype call =
  GetChatMember int int
  | SendPhoto int pystr pystr "inline_button option"
  | SendMessage int pystr "inline_button option"

text \<open>
  The collaborators of the broadcast loop. An exception \<open>e\<close> is represented by
  \<open>str(e)\<close>, the only thing the source reads from it. \<open>py_int\<close> is the builtin
  \<open>int()\<close> applied to a registry key (\<open>Inl\<close> when it raises \<open>ValueError\<close>);
  \<open>get_chat_member\<close> answers with the member's \<open>status\<close>.
\<close>

record env =
  py_int :: "pystr \<Rightarrow> pystr + int"
  bot_id :: int
  get_chat_member :: "int \<Rightarrow> int \<Rightarrow> pystr + pystr"
  send_photo :: "int \<Rightarrow> pystr \<Rightarrow> pystr \<Rightarrow> inline_button option \<Rightarrow> pystr + unit"
  send_message :: "int \<Rightarrow> pystr \<Rightarrow> inline_button option \<Rightarrow> pystr + unit"

text \<open>What a handler leaves behind: the state it returns, the session data, the
  replies to the operator and the calls made on the bot.\<close>

record outcome =
  next_state :: conv_state
  data :: user_data
  replies :: "reply list"
  calls :: "call list"

section \<open>The composition wizard\<close>

definition new_post :: "user_data \<Rightarrow> py_error + outcome" where
  "new_post ud =
     Inr \<lparr>next_state = UPLOADING_IMAGE,
          data = Some \<lparr>image_file = None, title = None, description = None,
                       url = None, button_text = None\<rparr>,
          replies = [Step1_ImageUpload], calls = []\<rparr>"

definition ask_for_title :: "user_data \<Rightarrow> reply list \<Rightarrow> py_error + outcome" where
  "ask_for_title ud rs =
     Inr \<lparr>next_state = ENTERING_TITLE, data = ud, replies = rs @ [Step2_PostTitle], calls = []\<rparr>"

text \<open>\<open>photo\<close> is \<open>update.message.photo\<close>, the list of the sizes' \<open>file_id\<close>s.\<close>

definition handle_image :: "pystr list \<Rightarrow> user_data \<Rightarrow> py_error + outcome" where
  "handle_image photo ud =
     (if photo \<noteq> [] then
        (case ud of
           None \<Rightarrow> Inl KeyError
         | Some p \<Rightarrow> ask_for_title (Some (p\<lparr>image_file := Some (last photo)\<rparr>)) [ImageReceived])
      else ask_for_title ud [])"

definition skip_image :: "user_data \<Rightarrow> py_error + outcome" where
  "skip_image ud =
     (case ud of
        None \<Rightarrow> Inl KeyError
      | Some p \<Rightarrow> ask_for_title (Some (p\<lparr>image_file := None\<rparr>)) [])"

definition ask_for_description :: "user_data \<Rightarrow> reply list \<Rightarrow> py_error + outcome" where
  "ask_for_description ud rs =
     Inr \<lparr>next_state = ENTERING_DESCRIPTION, data = ud,
          replies = rs @ [Step3_Description], calls = []\<rparr>"

definition handle_title :: "pystr \<Rightarrow> user_data \<Rightarrow> py_error + outcome" where
  "handle_title text ud =
     (let title' = strip text in
      if length title' > 200 then
        Inr \<lparr>next_state = ENTERING_TITLE, data = ud, replies = [TitleTooLong], calls = []\<rparr>
      else
        (case ud of
           None \<Rightarrow> Inl KeyError
         | Some p \<Rightarrow> ask_for_description (Some (p\<lparr>title := Some title'\<rparr>)) [TitleSaved]))"

text \<open>The preview reads the post and \<open>chat_storage.get_chat_count()\<close>; it changes nothing.\<close>

definition show_preview :: "chats \<Rightarrow> user_data \<Rightarrow> reply list \<Rightarrow> py_error + outcome" where
  "show_preview cs ud rs =
     (case ud of
        None \<Rightarrow> Inl KeyError
      | Some p \<Rightarrow>
          Inr \<lparr>next_state = PREVIEW, data = ud,
               replies = rs @
                 [PostPreview (if truthy (title p) then title p else None)
                    (if truthy (description p) then description p else None)
                    (length cs) (truthy (image_file p)) (truthy (url p))
                    (if truthy (url p)
                     then Some \<lparr>btn_text = button_text p, btn_url = url p\<rparr> else None)],
               calls = []\<rparr>)"

definition ask_for_url :: "user_data \<Rightarrow> reply list \<Rightarrow> py_error + outcome" where
  "ask_for_url ud rs =
     Inr \<lparr>next_state = ENTERING_URL, data = ud, replies = rs @ [Step4_Button], calls = []\<rparr>"

definition handle_description :: "pystr \<Rightarrow> user_data \<Rightarrow> py_error + outcome" where
  "handle_description text ud =
     (let description' = strip text in
      if length description' > 1000 then
        Inr \<lparr>next_state = ENTERING_DESCRIPTION, data = ud,
             replies = [DescriptionTooLong], calls = []\<rparr>
      else
        (case ud of
           None \<Rightarrow> Inl KeyError
         | Some p \<Rightarrow> ask_for_url (Some (p\<lparr>description := Some description'\<rparr>)) [DescriptionSaved]))"

definition skip_description :: "user_data \<Rightarrow> py_error + outcome" where
  "skip_description ud =
     (case ud of
        None \<Rightarrow> Inl KeyError
      | Some p \<Rightarrow> ask_for_url (Some (p\<lparr>description := None\<rparr>)) [])"

text \<open>
  The two local variables \<open>url\<close> and \<open>button_text\<close> that \<open>handle_url\<close> computes from
  the stripped text once it has found a \<open>'|'\<close> in it.
\<close>

definition parse_url_line :: "pystr \<Rightarrow> pystr \<times> pystr" where
  "parse_url_line text =
     (let parts = split1 pipe text;
          url' = strip (parts ! 0);
          button_text' = (if length parts > 1 then strip (parts ! 1) else lit ''Click Here'')
      in (url', button_text'))"

definition handle_url :: "chats \<Rightarrow> pystr \<Rightarrow> user_data \<Rightarrow> py_error + outcome" where
  "handle_url cs text0 ud =
     (let text = strip text0 in
      if pipe \<notin> set text then
        Inr \<lparr>next_state = ENTERING_URL, data = ud, replies = [InvalidFormat], calls = []\<rparr>
      else
        (let (url', button_text') = parse_url_line text in
         if \<not> (startswith url' (lit ''http://'') \<or> startswith url' (lit ''https://'')) then
           Inr \<lparr>next_state = ENTERING_URL, data = ud, replies = [InvalidUrl], calls = []\<rparr>
         else
           (case ud of
              None \<Rightarrow> Inl KeyError
            | Some p \<Rightarrow>
                show_preview cs (Some (p\<lparr>url := Some url', button_text := Some button_text'\<rparr>))
                  [ButtonSaved])))"

definition skip_url :: "chats \<Rightarrow> user_data \<Rightarrow> py_error + outcome" where
  "skip_url cs ud =
     (case ud of
        None \<Rightarrow> Inl KeyError
      | Some p \<Rightarrow> show_preview cs (Some (p\<lparr>url := None, button_text := None\<rparr>)) [])"

definition cancel :: "user_data \<Rightarrow> py_error + outcome" where
  "cancel ud =
     Inr \<lparr>next_state = END, data = None, replies = [OperationCancelled], calls = []\<rparr>"

section \<open>The broadcast\<close>

text \<open>The counters and the list that \<open>confirm_send\<close> keeps while it loops, and the
  calls made on the bot so far.\<close>

record tally =
  success_count :: nat
  failed_count :: nat
  failed_chats :: "pystr list"
  bot_calls :: "call list"

definition record_failure :: "pystr \<Rightarrow> tally \<Rightarrow> tally" where
  "record_failure entry t =
     t\<lparr>failed_count := failed_count t + 1, failed_chats := failed_chats t @ [entry]\<rparr>"

definition record_call :: "call \<Rightarrow> tally \<Rightarrow> tally" where
  "record_call c t = t\<lparr>bot_calls := bot_calls t @ [c]\<rparr>"

text \<open>The entry \<open>f"{chat_info['title']} ({str(e)[:30]})"\<close> of the \<open>except\<close> branch.\<close>

definition error_entry :: "chat_info \<Rightarrow> pystr \<Rightarrow> pystr" where
  "error_entry info err = chat_title info @ lit '' ('' @ take 30 err @ lit '')''"

definition not_admin_entry :: "chat_info \<Rightarrow> pystr" where
  "not_admin_entry info = chat_title info @ lit '' (not admin)''"

text \<open>The message text built for each chat; \<open>[10, 10]\<close> is \<open>"\\n\\n"\<close>.\<close>

definition message_text :: "post \<Rightarrow> pystr" where
  "message_text p =
     (if truthy (title p) then lit ''<b>'' @ the (title p) @ lit ''</b>'' @ [10, 10] else []) @
     (if truthy (description p) then the (description p) else [])"

definition reply_markup :: "post \<Rightarrow> inline_button option" where
  "reply_markup p =
     (if truthy (url p) then Some \<lparr>btn_text = button_text p, btn_url = url p\<rparr> else None)"

text \<open>
  The body of the \<open>for\<close> loop for one item of the snapshot. Every exception raised
  inside the \<open>try\<close> (by \<open>int(chat_id)\<close>, by the membership query or by the send) is
  caught by \<open>except Exception\<close>.
\<close>

definition send_to_chat :: "env \<Rightarrow> post \<Rightarrow> pystr \<times> chat_info \<Rightarrow> tally \<Rightarrow> tally" where
  "send_to_chat e p item t =
     (let chat_id = fst item; info = snd item in
      case py_int e chat_id of
        Inl err \<Rightarrow> record_failure (error_entry info err) t
      | Inr cid \<Rightarrow>
          (let t1 = record_call (GetChatMember cid (bot_id e)) t in
           case get_chat_member e cid (bot_id e) of
             Inl err \<Rightarrow> record_failure (error_entry info err) t1
           | Inr status \<Rightarrow>
               if status \<notin> set [lit ''administrator'', lit ''creator''] then
                 record_failure (not_admin_entry info) t1
               else if truthy (image_file p) then
                 (let t2 = record_call
                             (SendPhoto cid (the (image_file p)) (message_text p) (reply_markup p)) t1 in
                  case send_photo e cid (the (image_file p)) (message_text p) (reply_markup p) of
                    Inl err \<Rightarrow> record_failure (error_entry info err) t2
                  | Inr u \<Rightarrow> t2\<lparr>success_count := success_count t2 + 1\<rparr>)
               else
                 (let t2 = record_call (SendMessage cid (message_text p) (reply_markup p)) t1 in
                  case send_message e cid (message_text p) (reply_markup p) of
                    Inl err \<Rightarrow> record_failure (error_entry info err) t2
                  | Inr u \<Rightarrow> t2\<lparr>success_count := success_count t2 + 1\<rparr>)))"

fun broadcast_loop :: "env \<Rightarrow> post \<Rightarrow> chats \<Rightarrow> tally \<Rightarrow> tally" where
  "broadcast_loop e p [] t = t"
| "broadcast_loop e p (item # items) t = broadcast_loop e p items (send_to_chat e p item t)"

definition tally0 :: tally where
  "tally0 = \<lparr>success_count = 0, failed_count = 0, failed_chats = [], bot_calls = []\<rparr>"

text \<open>The result message: both counters over \<open>len(chats)\<close>, the first five failed
  chats and, beyond five, how many more there are.\<close>

definition result_message :: "tally \<Rightarrow> nat \<Rightarrow> reply" where
  "result_message t n =
     BroadcastComplete (success_count t) (failed_count t) n (take 5 (failed_chats t))
       (if length (failed_chats t) > 5 then Some (length (failed_chats t) - 5) else None)"

definition confirm_send :: "env \<Rightarrow> chats \<Rightarrow> user_data \<Rightarrow> py_error + outcome" where
  "confirm_send e cs ud =
     (case ud of
        None \<Rightarrow> Inl KeyError
      | Some p \<Rightarrow>
          if cs = [] then
            Inr \<lparr>next_state = END, data = ud, replies = [NoChatsAvailable], calls = []\<rparr>
          else
            (let t = broadcast_loop e p cs tally0 in
             Inr \<lparr>next_state = END, data = None,
                  replies = [Broadcasting (length cs), result_message t (length cs)],
                  calls = bot_calls t\<rparr>))"

section \<open>Routing of updates\<close>

text \<open>
  The updates the handlers of \<open>main\<close> react to: a photo message, a text message that
  is not a command, a pressed inline button with its \<open>callback_data\<close>, and a command.
\<close>

datatype signal = Photo "pystr list" | Text pystr | Callback pystr | Command pystr

definition unhandled :: "conv_state \<Rightarrow> user_data \<Rightarrow> py_error + outcome" where
  "unhandled st ud = Inr \<lparr>next_state = st, data = ud, replies = [], calls = []\<rparr>"

text \<open>
  \<open>button_callback\<close> runs for a pressed button that the conversation did not take.
  It calls \<open>new_post\<close> for \<open>cmd_newpost\<close> and drops the state that \<open>new_post\<close> returns.
\<close>

definition button_callback :: "chats \<Rightarrow> pystr \<Rightarrow> conv_state \<Rightarrow> user_data \<Rightarrow> py_error + outcome" where
  "button_callback cs d st ud =
     (if d = lit ''cmd_newpost'' then
        (case new_post ud of Inl err \<Rightarrow> Inl err | Inr r \<Rightarrow> Inr (r\<lparr>next_state := st\<rparr>))
      else if d = lit ''cmd_listchats'' then
        Inr \<lparr>next_state = st, data = ud, replies = [ChatList (length cs)], calls = []\<rparr>
      else if d = lit ''cmd_help'' then
        Inr \<lparr>next_state = st, data = ud, replies = [HelpGuide], calls = []\<rparr>
      else if d = lit ''cmd_start'' then
        Inr \<lparr>next_state = st, data = ud, replies = [WelcomeBack], calls = []\<rparr>
      else unhandled st ud)"

text \<open>
  How the handlers of \<open>main\<close> recognise an update.

  A \<open>CommandHandler\<close> compares the lower-cased command name with its own name, so
  \<open>/CANCEL\<close> is \<open>/cancel\<close>. \<open>Command c\<close> carries the name as it was typed, of a command
  addressed to this bot. A command name holds Latin letters, digits and underscores only,
  and on these \<open>py_lower\<close> is \<open>str.lower()\<close>.

  A \<open>CallbackQueryHandler\<close> with the pattern \<open>'^name$'\<close> applies \<open>re.match\<close> to the callback
  data: \<open>$\<close> matches at the end of the data and also before a final newline (U+000A).
\<close>

definition py_lower :: "pystr \<Rightarrow> pystr" where
  "py_lower s = map (\<lambda>c. if 65 \<le> c \<and> c \<le> 90 then c + 32 else c) s"

definition command_is :: "string \<Rightarrow> pystr \<Rightarrow> bool" where
  "command_is name c \<longleftrightarrow> py_lower c = lit name"

definition pattern_matches :: "string \<Rightarrow> pystr \<Rightarrow> bool" where
  "pattern_matches name d \<longleftrightarrow> d = lit name \<or> d = lit name @ [10]"

text \<open>
  The handlers registered by \<open>main\<close>, in their order: the three menu commands, then the
  \<open>ConversationHandler\<close> (entry points when no conversation is running, state \<open>END\<close>;
  otherwise the handlers of the current state, then the fallbacks), then
  \<open>button_callback\<close>. An update that no handler takes changes nothing.
\<close>

definition dispatch :: "env \<Rightarrow> chats \<Rightarrow> conv_state \<Rightarrow> signal \<Rightarrow> user_data \<Rightarrow> py_error + outcome" where
  "dispatch e cs st sg ud =
     (case sg of
        Command c \<Rightarrow>
          if command_is ''start'' c then
            Inr \<lparr>next_state = st, data = ud, replies = [Welcome], calls = []\<rparr>
          else if command_is ''help'' c then
            Inr \<lparr>next_state = st, data = ud, replies = [HelpGuide], calls = []\<rparr>
          else if command_is ''listchats'' c then
            Inr \<lparr>next_state = st, data = ud, replies = [ChatList (length cs)], calls = []\<rparr>
          else if st = END then
            (if command_is ''newpost'' c then new_post ud else unhandled st ud)
          else if command_is ''cancel'' c then cancel ud
          else unhandled st ud
      | Photo ph \<Rightarrow>
          if st = UPLOADING_IMAGE then handle_image ph ud else unhandled st ud
      | Text tx \<Rightarrow>
          if st = ENTERING_TITLE then handle_title tx ud
          else if st = ENTERING_DESCRIPTION then handle_description tx ud
          else if st = ENTERING_URL then handle_url cs tx ud
          else unhandled st ud
      | Callback d \<Rightarrow>
          if st = END then
            (if pattern_matches ''cmd_newpost'' d then new_post ud
             else button_callback cs d st ud)
          else if st = UPLOADING_IMAGE \<and> pattern_matches ''skip_image'' d then skip_image ud
          else if st = ENTERING_DESCRIPTION \<and> pattern_matches ''skip_description'' d then
            skip_description ud
          else if st = ENTERING_URL \<and> pattern_matches ''skip_url'' d then skip_url cs ud
          else if st = PREVIEW \<and> pattern_matches ''confirm_send'' d then confirm_send e cs ud
          else if pattern_matches ''cancel'' d then cancel ud
          else button_callback cs d st ud)"

text \<open>The invariant of the data model: a button text is there exactly when a url is.\<close>

definition draft_inv :: "post \<Rightarrow> bool" where
  "draft_inv p \<longleftrightarrow> (button_text p = None) = (url p = None)"

definition session_inv :: "user_data \<Rightarrow> bool" where
  "session_inv ud = (case ud of None \<Rightarrow> True | Some p \<Rightarrow> draft_inv p)"

text \<open>Reading the call log: the chats whose membership was queried, in order, and
  whether a call is a send to a given chat.\<close>

fun chat_queries :: "call list \<Rightarrow> int list" where
  "chat_queries [] = []"
| "chat_queries (GetChatMember cid uid # cl) = cid # chat_queries cl"
| "chat_queries (SendPhoto cid ph tx mk # cl) = chat_queries cl"
| "chat_queries (SendMessage cid tx mk # cl) = chat_queries cl"

fun is_send_to :: "int \<Rightarrow> call \<Rightarrow> bool" where
  "is_send_to c (GetChatMember cid uid) = False"
| "is_send_to c (SendPhoto cid ph tx mk) = (cid = c)"
| "is_send_to c (SendMessage cid tx mk) = (cid = c)"

text \<open>The chats a photo or a message was sent to, in order.\<close>

fun chat_sends :: "call list \<Rightarrow> int list" where
  "chat_sends [] = []"
| "chat_sends (GetChatMember cid uid # cl) = chat_sends cl"
| "chat_sends (SendPhoto cid ph tx mk # cl) = cid # chat_sends cl"
| "chat_sends (SendMessage cid tx mk # cl) = cid # chat_sends cl"

text \<open>The ids of the snapshot's items whose key \<open>int()\<close> accepts, in snapshot order.\<close>

fun parsed_ids :: "env \<Rightarrow> chats \<Rightarrow> int list" where
  "parsed_ids e [] = []"
| "parsed_ids e (item # items) =
     (case py_int e (fst item) of
        Inl err \<Rightarrow> parsed_ids e items
      | Inr cid \<Rightarrow> cid # parsed_ids e items)"

text \<open>
  The ids of the snapshot's items that pass the administrator check (the key converts,
  the membership query answers, and the status is \<open>administrator\<close> or \<open>creator\<close>), in
  snapshot order.
\<close>

fun eligible_ids :: "env \<Rightarrow> chats \<Rightarrow> int list" where
  "eligible_ids e [] = []"
| "eligible_ids e (item # items) =
     (case py_int e (fst item) of
        Inl err \<Rightarrow> eligible_ids e items
      | Inr cid \<Rightarrow>
          (case get_chat_member e cid (bot_id e) of
             Inl err \<Rightarrow> eligible_ids e items
           | Inr status \<Rightarrow>
               if status \<in> set [lit ''administrator'', lit ''creator'']
               then cid # eligible_ids e items
               else eligible_ids e items))"

section \<open>A sample registry and sample collaborators\<close>

text \<open>
  Three registered chats and a bot that is administrator of the first, plain member
  of the second and was removed from the third (the membership query raises there).
\<close>

definition sample_chats :: chats where
  "sample_chats =
     [(lit ''-1001'', \<lparr>chat_title = lit ''News'', chat_type = lit ''channel'',
                       added_at = lit ''2024-01-01T10:00:00''\<rparr>),
      (lit ''-1002'', \<lparr>chat_title = lit ''Team'', chat_type = lit ''supergroup'',
                       added_at = lit ''2024-01-02T10:00:00''\<rparr>),
      (lit ''-1003'', \<lparr>chat_title = lit ''Old'', chat_type = lit ''group'',
                       added_at = lit ''2024-01-03T10:00:00''\<rparr>)]"

definition sample_env :: env where
  "sample_env =
     \<lparr>py_int = (\<lambda>k. if k = lit ''-1001'' then Inr (- 1001)
                    else if k = lit ''-1002'' then Inr (- 1002)
                    else if k = lit ''-1003'' then Inr (- 1003)
                    else Inl (lit ''invalid literal for int() with base 10'')),
      bot_id = 42,
      get_chat_member = (\<lambda>cid uid. if cid = - 1001 then Inr (lit ''administrator'')
                    else if cid = - 1002 then Inr (lit ''member'')
                    else Inl (lit ''Forbidden: bot was kicked from the group chat'')),
      send_photo = (\<lambda>cid ph tx mk. Inr ()),
      send_message = (\<lambda>cid tx mk. Inr ())\<rparr>"

definition sample_post :: post where
  "sample_post =
     \<lparr>image_file = None, title = Some (lit ''Hello''), description = None,
      url = None, button_text = None\<rparr>"

section \<open>Facts about stripping and splitting\<close>

lemma not_isspace_pipe: "\<not> isspace pipe"
  by (simp add: isspace_def pipe_def)

lemma lstrip_Nil [simp]: "lstrip [] = []"
  by (simp add: lstrip_def)

lemma rstrip_Nil [simp]: "rstrip [] = []"
  by (simp add: rstrip_def)

lemma lstrip_all_space: "\<forall>c\<in>set s. isspace c \<Longrightarrow> lstrip s = []"
  by (simp add: lstrip_def)

lemma rstrip_all_space: "\<forall>c\<in>set s. isspace c \<Longrightarrow> rstrip s = []"
  by (simp add: rstrip_def)

lemma strip_all_space: "\<forall>c\<in>set s. isspace c \<Longrightarrow> strip s = []"
  by (simp add: strip_def lstrip_all_space)

lemma mem_dropWhile: "\<not> P x \<Longrightarrow> x \<in> set (dropWhile P xs) \<longleftrightarrow> x \<in> set xs"
  by (induction xs) auto

lemma pipe_in_lstrip: "pipe \<in> set (lstrip s) \<longleftrightarrow> pipe \<in> set s"
  by (simp add: lstrip_def mem_dropWhile not_isspace_pipe)

lemma pipe_in_rstrip: "pipe \<in> set (rstrip s) \<longleftrightarrow> pipe \<in> set s"
  using mem_dropWhile [of isspace pipe "rev s"] by (simp add: rstrip_def not_isspace_pipe)

lemma pipe_in_strip: "pipe \<in> set (strip s) \<longleftrightarrow> pipe \<in> set s"
  by (simp add: strip_def pipe_in_lstrip pipe_in_rstrip)

lemma rstrip_append_Cons:
  "\<not> isspace x \<Longrightarrow> rstrip (a @ x # b) = a @ x # rstrip b"
  by (simp add: rstrip_def dropWhile_append)

lemma rstrip_Cons: "\<not> isspace x \<Longrightarrow> rstrip (x # b) = x # rstrip b"
  using rstrip_append_Cons [of x "[]" b] by simp

lemma lstrip_Cons_space: "isspace x \<Longrightarrow> lstrip (x # s) = lstrip s"
  by (simp add: lstrip_def)

lemma lstrip_Cons_nonspace: "\<not> isspace x \<Longrightarrow> lstrip (x # s) = x # s"
  by (simp add: lstrip_def)

lemma lstrip_idem: "lstrip (lstrip s) = lstrip s"
  by (induction s) (auto simp: lstrip_def)

lemma lstrip_rstrip: "lstrip (rstrip s) = rstrip (lstrip s)"
proof (induction s)
  case Nil
  show ?case by simp
next
  case (Cons x s)
  show ?case
  proof (cases "isspace x")
    case False
    then show ?thesis by (simp add: rstrip_Cons lstrip_Cons_nonspace)
  next
    case True
    show ?thesis
    proof (cases "\<forall>c\<in>set s. isspace c")
      case True
      with \<open>isspace x\<close> have "\<forall>c\<in>set (x # s). isspace c" by simp
      then show ?thesis by (simp add: lstrip_all_space rstrip_all_space)
    next
      case False
      then have "rstrip (x # s) = x # rstrip s"
        by (simp add: rstrip_def dropWhile_append)
      with Cons \<open>isspace x\<close> show ?thesis by (simp add: lstrip_Cons_space)
    qed
  qed
qed

lemma rstrip_idem: "rstrip (rstrip s) = rstrip s"
proof -
  have "dropWhile isspace (dropWhile isspace (rev s)) = dropWhile isspace (rev s)"
    by (induction "rev s" arbitrary: s) (auto simp: dropWhile_eq_Cons_conv split: if_splits)
  then show ?thesis by (simp add: rstrip_def)
qed

lemma strip_lstrip: "strip (lstrip s) = strip s"
  by (simp add: strip_def lstrip_idem)

lemma strip_rstrip: "strip (rstrip s) = strip s"
  by (simp add: strip_def lstrip_rstrip rstrip_idem)

lemma takeWhile_lstrip:
  "takeWhile (\<lambda>c. c \<noteq> pipe) (lstrip s) = lstrip (takeWhile (\<lambda>c. c \<noteq> pipe) s)"
  using not_isspace_pipe by (induction s) (auto simp: lstrip_def)

lemma dropWhile_lstrip:
  "dropWhile (\<lambda>c. c \<noteq> pipe) (lstrip s) = dropWhile (\<lambda>c. c \<noteq> pipe) s"
  using not_isspace_pipe by (induction s) (auto simp: lstrip_def)

lemma split_at_pipe:
  "pipe \<in> set s \<Longrightarrow>
   s = takeWhile (\<lambda>c. c \<noteq> pipe) s @ pipe # tl (dropWhile (\<lambda>c. c \<noteq> pipe) s)"
  by (induction s) auto

lemma takeWhile_rstrip:
  assumes "pipe \<in> set s"
  shows "takeWhile (\<lambda>c. c \<noteq> pipe) (rstrip s) = takeWhile (\<lambda>c. c \<noteq> pipe) s"
    and "tl (dropWhile (\<lambda>c. c \<noteq> pipe) (rstrip s)) = rstrip (tl (dropWhile (\<lambda>c. c \<noteq> pipe) s))"
proof -
  let ?a = "takeWhile (\<lambda>c. c \<noteq> pipe) s" and ?b = "tl (dropWhile (\<lambda>c. c \<noteq> pipe) s)"
  have s: "s = ?a @ pipe # ?b" using assms by (rule split_at_pipe)
  have r: "rstrip s = ?a @ pipe # rstrip ?b"
    using rstrip_append_Cons [OF not_isspace_pipe, of ?a ?b] s by simp
  have a: "\<forall>c\<in>set ?a. c \<noteq> pipe" by (auto dest: set_takeWhileD)
  show "takeWhile (\<lambda>c. c \<noteq> pipe) (rstrip s) = ?a"
    unfolding r using a by (simp add: takeWhile_append2 del: takeWhile_append)
  show "tl (dropWhile (\<lambda>c. c \<noteq> pipe) (rstrip s)) = rstrip ?b"
    unfolding r using a by (simp add: dropWhile_append)
qed

lemma url_part_strip:
  "strip (takeWhile (\<lambda>c. c \<noteq> pipe) (strip s)) = strip (takeWhile (\<lambda>c. c \<noteq> pipe) s)"
proof (cases "pipe \<in> set s")
  case True
  then have "pipe \<in> set (lstrip s)" by (simp add: pipe_in_lstrip)
  then show ?thesis
    by (simp add: strip_def[of s] takeWhile_rstrip(1) takeWhile_lstrip strip_lstrip)
next
  case False
  then have "pipe \<notin> set (strip s)" by (simp add: pipe_in_strip)
  then have e1: "takeWhile (\<lambda>c. c \<noteq> pipe) (strip s) = strip s"
    by (metis (mono_tags, lifting) takeWhile_eq_all_conv)
  from False have e2: "takeWhile (\<lambda>c. c \<noteq> pipe) s = s"
    by (metis (mono_tags, lifting) takeWhile_eq_all_conv)
  have "strip (strip s) = strip s"
    by (simp add: strip_def lstrip_rstrip rstrip_idem lstrip_idem)
  then show ?thesis unfolding e1 e2 .
qed

lemma button_part_strip:
  assumes "pipe \<in> set s"
  shows "strip (tl (dropWhile (\<lambda>c. c \<noteq> pipe) (strip s))) = strip (tl (dropWhile (\<lambda>c. c \<noteq> pipe) s))"
proof -
  from assms have "pipe \<in> set (lstrip s)" by (simp add: pipe_in_lstrip)
  then show ?thesis
    by (simp add: strip_def[of s] takeWhile_rstrip(2) dropWhile_lstrip strip_rstrip)
qed

section \<open>Facts about the broadcast loop\<close>

lemma send_to_chat_counts:
  "success_count (send_to_chat e p item t) + failed_count (send_to_chat e p item t)
     = Suc (success_count t + failed_count t)"
  by (simp add: send_to_chat_def record_failure_def record_call_def Let_def split: sum.splits)

lemma send_to_chat_one_outcome:
  "(success_count (send_to_chat e p item t) = success_count t + 1 \<and>
    failed_count (send_to_chat e p item t) = failed_count t \<and>
    failed_chats (send_to_chat e p item t) = failed_chats t) \<or>
   (success_count (send_to_chat e p item t) = success_count t \<and>
    failed_count (send_to_chat e p item t) = failed_count t + 1 \<and>
    length (failed_chats (send_to_chat e p item t)) = length (failed_chats t) + 1)"
  by (simp add: send_to_chat_def record_failure_def record_call_def Let_def split: sum.splits)

lemma loop_counts:
  "success_count (broadcast_loop e p cs t) + failed_count (broadcast_loop e p cs t)
     = success_count t + failed_count t + length cs"
  by (induction cs arbitrary: t) (simp_all add: send_to_chat_counts)

lemma send_to_chat_failed_eq:
  "length (failed_chats t) = failed_count t \<Longrightarrow>
   length (failed_chats (send_to_chat e p item t)) = failed_count (send_to_chat e p item t)"
  by (simp add: send_to_chat_def record_failure_def record_call_def Let_def split: sum.splits)

lemma loop_failed_eq:
  "length (failed_chats t) = failed_count t \<Longrightarrow>
   length (failed_chats (broadcast_loop e p cs t)) = failed_count (broadcast_loop e p cs t)"
  by (induction cs arbitrary: t) (simp_all add: send_to_chat_failed_eq)

lemma chat_queries_append: "chat_queries (xs @ ys) = chat_queries xs @ chat_queries ys"
  by (induction xs rule: chat_queries.induct) simp_all

lemma send_to_chat_queries:
  "chat_queries (bot_calls (send_to_chat e p item t))
     = chat_queries (bot_calls t) @ parsed_ids e [item]"
  by (simp add: send_to_chat_def record_failure_def record_call_def Let_def chat_queries_append
      split: sum.splits)

lemma loop_queries:
  "chat_queries (bot_calls (broadcast_loop e p cs t)) = chat_queries (bot_calls t) @ parsed_ids e cs"
  by (induction cs arbitrary: t) (simp_all add: send_to_chat_queries split: sum.splits)

lemma chat_sends_append: "chat_sends (xs @ ys) = chat_sends xs @ chat_sends ys"
  by (induction xs rule: chat_sends.induct) simp_all

lemma send_to_chat_sends:
  "chat_sends (bot_calls (send_to_chat e p item t))
     = chat_sends (bot_calls t) @ eligible_ids e [item]"
  by (simp add: send_to_chat_def record_failure_def record_call_def Let_def chat_sends_append
      split: sum.splits)

lemma eligible_ids_Cons: "eligible_ids e (item # items) = eligible_ids e [item] @ eligible_ids e items"
  by (simp split: sum.splits)

lemma loop_sends:
  "chat_sends (bot_calls (broadcast_loop e p cs t)) = chat_sends (bot_calls t) @ eligible_ids e cs"
proof (induction cs arbitrary: t)
  case Nil
  show ?case by simp
next
  case (Cons item items)
  have "chat_sends (bot_calls (broadcast_loop e p (item # items) t))
      = chat_sends (bot_calls (send_to_chat e p item t)) @ eligible_ids e items"
    by (simp add: Cons.IH)
  also have "\<dots> = chat_sends (bot_calls t) @ eligible_ids e [item] @ eligible_ids e items"
    by (simp add: send_to_chat_sends)
  also have "\<dots> = chat_sends (bot_calls t) @ eligible_ids e (item # items)"
    by (simp only: eligible_ids_Cons [of e item items])
  finally show ?case .
qed

lemma eligible_ids_length: "length (eligible_ids e cs) \<le> length cs"
  by (induction cs) (auto split: sum.splits)

lemma send_to_chat_log:
  "\<exists>new. bot_calls (send_to_chat e p item t) = bot_calls t @ new \<and> length new \<le> 2 \<and>
         length (chat_queries new) \<le> 1 \<and> length (chat_sends new) \<le> 1"
  by (simp add: send_to_chat_def record_failure_def record_call_def Let_def split: sum.splits)

lemma send_to_chat_success_sent:
  "success_count t \<le> length (chat_sends (bot_calls t)) \<Longrightarrow>
   success_count (send_to_chat e p item t) \<le> length (chat_sends (bot_calls (send_to_chat e p item t)))"
  by (simp add: send_to_chat_def record_failure_def record_call_def Let_def chat_sends_append
      split: sum.splits)

lemma loop_success_sent:
  "success_count t \<le> length (chat_sends (bot_calls t)) \<Longrightarrow>
   success_count (broadcast_loop e p cs t)
     \<le> length (chat_sends (bot_calls (broadcast_loop e p cs t)))"
  by (induction cs arbitrary: t) (simp_all add: send_to_chat_success_sent)

lemma send_to_chat_failed_mono:
  "set (failed_chats t) \<subseteq> set (failed_chats (send_to_chat e p item t))"
  by (auto simp: send_to_chat_def record_failure_def record_call_def Let_def split: sum.splits)

lemma loop_failed_mono:
  "set (failed_chats t) \<subseteq> set (failed_chats (broadcast_loop e p cs t))"
proof (induction cs arbitrary: t)
  case Nil
  show ?case by simp
next
  case (Cons item items)
  have "set (failed_chats t) \<subseteq> set (failed_chats (send_to_chat e p item t))"
    by (rule send_to_chat_failed_mono)
  also have "\<dots> \<subseteq> set (failed_chats (broadcast_loop e p items (send_to_chat e p item t)))"
    by (rule Cons.IH)
  finally show ?case by simp
qed

lemma loop_failed_entry:
  assumes "item \<in> set cs"
    and "\<And>t. x \<in> set (failed_chats (send_to_chat e p item t))"
  shows "x \<in> set (failed_chats (broadcast_loop e p cs t))"
  using assms(1)
proof (induction cs arbitrary: t)
  case Nil
  then show ?case by simp
next
  case (Cons c cs)
  show ?case
  proof (cases "item = c")
    case True
    with assms(2) [of t] loop_failed_mono [of "send_to_chat e p c t" e p cs]
    show ?thesis by auto
  next
    case False
    with Cons show ?thesis by simp
  qed
qed

section \<open>Facts about the wizard's handlers\<close>

lemma parse_url_line_split:
  "pipe \<in> set text \<Longrightarrow>
   parse_url_line text =
     (strip (takeWhile (\<lambda>c. c \<noteq> pipe) text), strip (tl (dropWhile (\<lambda>c. c \<noteq> pipe) text)))"
  by (simp add: parse_url_line_def split1_def Let_def)

lemma handle_url_accept:
  assumes "pipe \<in> set tx"
    and "startswith (strip (takeWhile (\<lambda>c. c \<noteq> pipe) tx)) (lit ''http://'') \<or>
         startswith (strip (takeWhile (\<lambda>c. c \<noteq> pipe) tx)) (lit ''https://'')"
  shows "handle_url cs tx (Some p) =
     show_preview cs
       (Some (p\<lparr>url := Some (strip (takeWhile (\<lambda>c. c \<noteq> pipe) tx)),
                button_text := Some (strip (tl (dropWhile (\<lambda>c. c \<noteq> pipe) tx)))\<rparr>))
       [ButtonSaved]"
proof -
  from assms(1) have "pipe \<in> set (strip tx)" by (simp add: pipe_in_strip)
  with assms show ?thesis
    by (auto simp: handle_url_def Let_def parse_url_line_split url_part_strip button_part_strip)
qed

lemma handle_url_no_pipe:
  "pipe \<notin> set tx \<Longrightarrow>
   handle_url cs tx ud =
     Inr \<lparr>next_state = ENTERING_URL, data = ud, replies = [InvalidFormat], calls = []\<rparr>"
  by (simp add: handle_url_def Let_def pipe_in_strip)

lemma handle_url_bad_scheme:
  assumes "pipe \<in> set tx"
    and "\<not> startswith (strip (takeWhile (\<lambda>c. c \<noteq> pipe) tx)) (lit ''http://'')"
    and "\<not> startswith (strip (takeWhile (\<lambda>c. c \<noteq> pipe) tx)) (lit ''https://'')"
  shows "handle_url cs tx ud =
     Inr \<lparr>next_state = ENTERING_URL, data = ud, replies = [InvalidUrl], calls = []\<rparr>"
proof -
  from assms(1) have "pipe \<in> set (strip tx)" by (simp add: pipe_in_strip)
  with assms show ?thesis
    by (simp add: handle_url_def Let_def parse_url_line_split url_part_strip)
qed




lemma handle_title_accept:
  "length (strip tx) \<le> 200 \<Longrightarrow>
   handle_title tx (Some p) =
     Inr \<lparr>next_state = ENTERING_DESCRIPTION, data = Some (p\<lparr>title := Some (strip tx)\<rparr>),
          replies = [TitleSaved, Step3_Description], calls = []\<rparr>"
  by (simp add: handle_title_def Let_def ask_for_description_def)



section \<open>Facts about the draft invariant\<close>

lemma session_inv_Some [simp]: "session_inv (Some p) = draft_inv p"
  by (simp add: session_inv_def)

lemma session_inv_None [simp]: "session_inv None"
  by (simp add: session_inv_def)

lemma new_post_inv: "new_post ud = Inr r \<Longrightarrow> session_inv (data r)"
  by (auto simp: new_post_def draft_inv_def)

lemma handle_image_inv: "session_inv ud \<Longrightarrow> handle_image ph ud = Inr r \<Longrightarrow> session_inv (data r)"
  by (auto simp: handle_image_def ask_for_title_def draft_inv_def split: if_splits option.splits)

lemma skip_image_inv: "session_inv ud \<Longrightarrow> skip_image ud = Inr r \<Longrightarrow> session_inv (data r)"
  by (auto simp: skip_image_def ask_for_title_def draft_inv_def split: option.splits)

lemma handle_title_inv: "session_inv ud \<Longrightarrow> handle_title tx ud = Inr r \<Longrightarrow> session_inv (data r)"
  by (auto simp: handle_title_def Let_def ask_for_description_def draft_inv_def
      split: if_splits option.splits)

lemma handle_description_inv:
  "session_inv ud \<Longrightarrow> handle_description tx ud = Inr r \<Longrightarrow> session_inv (data r)"
  by (auto simp: handle_description_def Let_def ask_for_url_def draft_inv_def
      split: if_splits option.splits)

lemma skip_description_inv:
  "session_inv ud \<Longrightarrow> skip_description ud = Inr r \<Longrightarrow> session_inv (data r)"
  by (auto simp: skip_description_def ask_for_url_def draft_inv_def split: option.splits)

lemma show_preview_data: "show_preview cs ud rs = Inr r \<Longrightarrow> data r = ud \<and> next_state r = PREVIEW"
  by (auto simp: show_preview_def split: option.splits)

lemma handle_url_inv: "session_inv ud \<Longrightarrow> handle_url cs tx ud = Inr r \<Longrightarrow> session_inv (data r)"
  by (auto simp: handle_url_def Let_def draft_inv_def
      split: if_splits option.splits prod.splits dest!: show_preview_data)

lemma skip_url_inv: "skip_url cs ud = Inr r \<Longrightarrow> session_inv (data r)"
  by (auto simp: skip_url_def draft_inv_def split: option.splits dest!: show_preview_data)

lemma cancel_inv: "cancel ud = Inr r \<Longrightarrow> session_inv (data r)"
  by (auto simp: cancel_def)

lemma confirm_send_inv:
  "session_inv ud \<Longrightarrow> confirm_send e cs ud = Inr r \<Longrightarrow> session_inv (data r)"
  by (auto simp: confirm_send_def Let_def split: option.splits if_splits)

lemma unhandled_inv: "session_inv ud \<Longrightarrow> unhandled st ud = Inr r \<Longrightarrow> session_inv (data r)"
  by (auto simp: unhandled_def)

lemma button_callback_inv:
  "session_inv ud \<Longrightarrow> button_callback cs d st ud = Inr r \<Longrightarrow> session_inv (data r)"
  by (auto simp: button_callback_def new_post_def unhandled_def draft_inv_def split: if_splits)

lemma dispatch_inv:
  assumes "session_inv ud" and "dispatch e cs st sg ud = Inr r"
  shows "session_inv (data r)"
proof (cases sg)
  case (Photo ph)
  with assms show ?thesis
    by (auto simp: dispatch_def split: if_splits dest: handle_image_inv unhandled_inv)
next
  case (Text tx)
  with assms show ?thesis
    by (auto simp: dispatch_def split: if_splits
        dest: handle_title_inv handle_description_inv handle_url_inv unhandled_inv)
next
  case (Callback d)
  with assms show ?thesis
    by (auto simp: dispatch_def split: if_splits
        dest: new_post_inv button_callback_inv skip_image_inv skip_description_inv skip_url_inv
          confirm_send_inv cancel_inv)
next
  case (Command c)
  with assms show ?thesis
    by (auto simp: dispatch_def split: if_splits dest: new_post_inv cancel_inv unhandled_inv)
qed

lemma skip_url_clears:
  "\<exists>r q. skip_url cs (Some p) = Inr r \<and> next_state r = PREVIEW \<and> data r = Some q \<and>
         url q = None \<and> button_text q = None"
  by (simp add: skip_url_def show_preview_def)

lemma handle_url_sets_both:
  assumes "handle_url cs tx (Some p) = Inr r" and "next_state r \<noteq> ENTERING_URL"
  shows "\<exists>q u b. next_state r = PREVIEW \<and> data r = Some q \<and> url q = Some u \<and> button_text q = Some b"
  using assms
  by (auto simp: handle_url_def Let_def split: if_splits prod.splits dest!: show_preview_data)

lemma handle_url_sample:
  "handle_url sample_chats (lit ''https://t.me/x | Join'') (Some sample_post) =
     Inr \<lparr>next_state = PREVIEW,
          data = Some (sample_post\<lparr>url := Some (lit ''https://t.me/x''),
                                    button_text := Some (lit ''Join'')\<rparr>),
          replies = [ButtonSaved,
            PostPreview (Some (lit ''Hello'')) None 3 False True
              (Some \<lparr>btn_text = Some (lit ''Join''), btn_url = Some (lit ''https://t.me/x'')\<rparr>)],
          calls = []\<rparr>"
  by (simp add: handle_url_def parse_url_line_def split1_def strip_def lstrip_def rstrip_def
      startswith_def isspace_def pipe_def lit_def Let_def show_preview_def sample_post_def
      sample_chats_def)

section \<open>Facts about single steps of the broadcast\<close>

lemma tally0_fields:
  "success_count tally0 = 0" "failed_count tally0 = 0" "failed_chats tally0 = []"
  "bot_calls tally0 = []"
  by (simp_all add: tally0_def)

lemma confirm_send_nonempty:
  "cs \<noteq> [] \<Longrightarrow>
   confirm_send e cs (Some p) =
     Inr \<lparr>next_state = END, data = None,
          replies = [Broadcasting (length cs),
                     result_message (broadcast_loop e p cs tally0) (length cs)],
          calls = bot_calls (broadcast_loop e p cs tally0)\<rparr>"
  by (simp add: confirm_send_def Let_def)

lemma loop_append:
  "broadcast_loop e p (xs @ ys) t = broadcast_loop e p ys (broadcast_loop e p xs t)"
  by (induction xs arbitrary: t) simp_all

lemma send_to_chat_not_admin:
  assumes "py_int e k = Inr cid" and "get_chat_member e cid (bot_id e) = Inr status"
    and "status \<noteq> lit ''administrator''" and "status \<noteq> lit ''creator''"
  shows "send_to_chat e p (k, info) t =
     t\<lparr>failed_count := failed_count t + 1,
       failed_chats := failed_chats t @ [chat_title info @ lit '' (not admin)''],
       bot_calls := bot_calls t @ [GetChatMember cid (bot_id e)]\<rparr>"
  using assms
  by (simp add: send_to_chat_def record_failure_def record_call_def not_admin_entry_def Let_def)

lemma send_to_chat_no_send:
  assumes "get_chat_member e cid (bot_id e) = Inr status"
    and "status \<noteq> lit ''administrator''" and "status \<noteq> lit ''creator''"
    and "list_all (\<lambda>c. \<not> is_send_to cid c) (bot_calls t)"
  shows "list_all (\<lambda>c. \<not> is_send_to cid c) (bot_calls (send_to_chat e p item t))"
  using assms
  by (auto simp: send_to_chat_def record_failure_def record_call_def Let_def split: sum.splits)

lemma loop_no_send:
  assumes "get_chat_member e cid (bot_id e) = Inr status"
    and "status \<noteq> lit ''administrator''" and "status \<noteq> lit ''creator''"
  shows "list_all (\<lambda>c. \<not> is_send_to cid c) (bot_calls t) \<Longrightarrow>
         list_all (\<lambda>c. \<not> is_send_to cid c) (bot_calls (broadcast_loop e p cs t))"
proof (induction cs arbitrary: t)
  case Nil
  then show ?case by simp
next
  case (Cons item items)
  from send_to_chat_no_send [OF assms Cons.prems]
  have "list_all (\<lambda>c. \<not> is_send_to cid c) (bot_calls (send_to_chat e p item t))" .
  then show ?case by (simp add: Cons.IH)
qed

lemma send_to_chat_error:
  assumes "py_int e k = Inl err \<or>
     (\<exists>cid. py_int e k = Inr cid \<and>
        (get_chat_member e cid (bot_id e) = Inl err \<or>
         (\<exists>status. get_chat_member e cid (bot_id e) = Inr status \<and>
            status \<in> set [lit ''administrator'', lit ''creator''] \<and>
            (if truthy (image_file p)
             then send_photo e cid (the (image_file p)) (message_text p) (reply_markup p)
             else send_message e cid (message_text p) (reply_markup p)) = Inl err)))"
  shows "success_count (send_to_chat e p (k, info) t) = success_count t \<and>
         failed_count (send_to_chat e p (k, info) t) = failed_count t + 1 \<and>
         failed_chats (send_to_chat e p (k, info) t) =
           failed_chats t @ [chat_title info @ lit '' ('' @ take 30 err @ lit '')'']"
  using assms
  by (auto simp: send_to_chat_def record_failure_def record_call_def error_entry_def Let_def
      split: sum.splits if_splits)

lemma message_text_blank_title:
  "message_text (q\<lparr>title := Some []\<rparr>) = (if truthy (description q) then the (description q) else [])"
  by (simp add: message_text_def)

lemma send_to_chat_admin_text:
  assumes "py_int e k = Inr cid"
    and "get_chat_member e cid (bot_id e) = Inr status"
    and "status = lit ''administrator'' \<or> status = lit ''creator''"
    and "\<not> truthy (image_file q)"
  shows "bot_calls (send_to_chat e q (k, info) t) =
           bot_calls t @ [GetChatMember cid (bot_id e), SendMessage cid (message_text q) (reply_markup q)]"
  using assms
  by (auto simp: send_to_chat_def record_failure_def record_call_def Let_def split: sum.splits)

text \<open>The broadcast of the sample post over the sample registry, and over its first
  two chats.\<close>

lemma sample_loop:
  "broadcast_loop sample_env sample_post sample_chats tally0 =
     \<lparr>success_count = 1, failed_count = 2,
      failed_chats = [lit ''Team (not admin)'', lit ''Old (Forbidden: bot was kicked from)''],
      bot_calls = [GetChatMember (- 1001) 42,
                   SendMessage (- 1001) (lit ''<b>Hello</b>'' @ [10, 10]) None,
                   GetChatMember (- 1002) 42, GetChatMember (- 1003) 42]\<rparr>"
  by (simp add: sample_chats_def sample_env_def sample_post_def tally0_def send_to_chat_def
      record_failure_def record_call_def error_entry_def not_admin_entry_def message_text_def
      reply_markup_def lit_def Let_def)

lemma sample_loop2:
  "broadcast_loop sample_env sample_post (take 2 sample_chats) tally0 =
     \<lparr>success_count = 1, failed_count = 1,
      failed_chats = [lit ''Team (not admin)''],
      bot_calls = [GetChatMember (- 1001) 42,
                   SendMessage (- 1001) (lit ''<b>Hello</b>'' @ [10, 10]) None,
                   GetChatMember (- 1002) 42]\<rparr>"
  by (simp add: sample_chats_def sample_env_def sample_post_def tally0_def send_to_chat_def
      record_failure_def record_call_def error_entry_def not_admin_entry_def message_text_def
      reply_markup_def lit_def Let_def)

section \<open>The url step: parsing\<close>

text \<open>
  Claim C1. In the url step, an input with \<open>'|'\<close> is split at the first \<open>'|'\<close>, the left
  part trimmed is the url and the right part trimmed is the button text, which is said
  to default to \<open>"Click Here"\<close> when it is empty after trimming. The source reaches its
  default only when \<open>split\<close> returns a single part, which cannot happen once a \<open>'|'\<close>
  was found: for the input \<open>"https://x.com | "\<close> the handler stores the url
  \<open>"https://x.com"\<close> and the empty string as button text, not \<open>"Click Here"\<close>.
\<close>

theorem handle_url_blank_button_text:
  "handle_url cs (lit ''https://x.com | '') (Some p) =
     show_preview cs (Some (p\<lparr>url := Some (lit ''https://x.com''), button_text := Some []\<rparr>))
       [ButtonSaved]
   \<and> [] \<noteq> lit ''Click Here''"
  by (simp add: handle_url_def parse_url_line_def split1_def strip_def lstrip_def rstrip_def
      startswith_def isspace_def pipe_def lit_def Let_def)

section \<open>The broadcast on an empty registry\<close>

text \<open>
  Claim C2. After the broadcast operation returns, the session's draft is said to be
  cleared and the session ended, whatever the registry snapshot. With an empty
  registry \<open>confirm_send\<close> returns \<open>END\<close> before it reaches \<open>user_data.clear()\<close>: the
  session ends and the draft is still stored.
\<close>

theorem confirm_send_empty_keeps_draft:
  "confirm_send e [] (Some p) =
     Inr \<lparr>next_state = END, data = Some p, replies = [NoChatsAvailable], calls = []\<rparr>"
  by (simp add: confirm_send_def)

text \<open>
  Claim C9. With an empty registry snapshot the broadcast makes no call on the bot (no
  membership query, no send), tells the operator that no chats are available instead
  of a delivery report, and ends the conversation.
\<close>

theorem confirm_send_empty_registry:
  "\<exists>r. confirm_send e [] (Some p) = Inr r \<and> next_state r = END \<and>
       replies r = [NoChatsAvailable] \<and> calls r = []"
  by (simp add: confirm_send_def)

section \<open>The title step\<close>



section \<open>The url step: rejections\<close>

text \<open>
  Claim C6. In the url step an input without \<open>'|'\<close> is rejected, and so is an input
  with \<open>'|'\<close> whose url part (the text left of the first \<open>'|'\<close>, trimmed) starts with
  neither \<open>http://\<close> nor \<open>https://\<close>. Both rejections stay in the url state and leave
  the session data, hence the draft's url and button text, as they were.
\<close>

theorem handle_url_rejects:
  "(pipe \<notin> set tx \<longrightarrow>
      handle_url cs tx ud =
        Inr \<lparr>next_state = ENTERING_URL, data = ud, replies = [InvalidFormat], calls = []\<rparr>) \<and>
   (pipe \<in> set tx \<and>
    \<not> startswith (strip (takeWhile (\<lambda>c. c \<noteq> pipe) tx)) (lit ''http://'') \<and>
    \<not> startswith (strip (takeWhile (\<lambda>c. c \<noteq> pipe) tx)) (lit ''https://'') \<longrightarrow>
      handle_url cs tx ud =
        Inr \<lparr>next_state = ENTERING_URL, data = ud, replies = [InvalidUrl], calls = []\<rparr>)"
  using handle_url_no_pipe handle_url_bad_scheme by blast

theorem handle_url_rejects_witness:
  "pipe \<notin> set (lit ''https://example.com Go'') \<and>
   handle_url sample_chats (lit ''https://example.com Go'') (Some sample_post) =
     Inr \<lparr>next_state = ENTERING_URL, data = Some sample_post, replies = [InvalidFormat], calls = []\<rparr> \<and>
   pipe \<in> set (lit ''example.com | Go'') \<and>
   strip (takeWhile (\<lambda>c. c \<noteq> pipe) (lit ''example.com | Go'')) = lit ''example.com'' \<and>
   \<not> startswith (lit ''example.com'') (lit ''http://'') \<and>
   \<not> startswith (lit ''example.com'') (lit ''https://'') \<and>
   handle_url sample_chats (lit ''example.com | Go'') (Some sample_post) =
     Inr \<lparr>next_state = ENTERING_URL, data = Some sample_post, replies = [InvalidUrl], calls = []\<rparr>"
proof -
  have a: "pipe \<notin> set (lit ''https://example.com Go'')"
    by (simp add: lit_def pipe_def)
  have b: "pipe \<in> set (lit ''example.com | Go'')"
    by (simp add: lit_def pipe_def)
  have c: "strip (takeWhile (\<lambda>c. c \<noteq> pipe) (lit ''example.com | Go'')) = lit ''example.com''"
    by (simp add: lit_def pipe_def strip_def lstrip_def rstrip_def isspace_def)
  have d: "\<not> startswith (lit ''example.com'') (lit ''http://'')"
    "\<not> startswith (lit ''example.com'') (lit ''https://'')"
    by (simp_all add: lit_def startswith_def)
  from a handle_url_rejects [of "lit ''https://example.com Go''" sample_chats "Some sample_post"]
  have e: "handle_url sample_chats (lit ''https://example.com Go'') (Some sample_post) =
     Inr \<lparr>next_state = ENTERING_URL, data = Some sample_post, replies = [InvalidFormat], calls = []\<rparr>"
    by blast
  from b c d handle_url_rejects [of "lit ''example.com | Go''" sample_chats "Some sample_post"]
  have f: "handle_url sample_chats (lit ''example.com | Go'') (Some sample_post) =
     Inr \<lparr>next_state = ENTERING_URL, data = Some sample_post, replies = [InvalidUrl], calls = []\<rparr>"
    by simp
  from a b c d e f show ?thesis by simp
qed

section \<open>The broadcast: counting outcomes\<close>

text \<open>
  Claim C3. A broadcast over a non-empty registry snapshot reports a success count and a
  failure count that add up to the size of the snapshot, which is the total it reports.
  The loop neither leaves early nor retries: every item of the snapshot moves exactly
  one of the two counters by one, the list of failed chats grows with the failure
  count, and the membership queries in the call log are those of the snapshot's items,
  once each and in snapshot order. The sends in the call log are those to the items
  that pass the administrator check, once each and in snapshot order; one item adds at
  most one query and at most one send to the log, and no success is counted without a
  send.
\<close>

theorem broadcast_counts:
  assumes "cs \<noteq> []"
  shows "confirm_send e cs (Some p) =
           Inr \<lparr>next_state = END, data = None,
                replies = [Broadcasting (length cs),
                  BroadcastComplete (success_count (broadcast_loop e p cs tally0))
                    (failed_count (broadcast_loop e p cs tally0)) (length cs)
                    (take 5 (failed_chats (broadcast_loop e p cs tally0)))
                    (if length (failed_chats (broadcast_loop e p cs tally0)) > 5
                     then Some (length (failed_chats (broadcast_loop e p cs tally0)) - 5)
                     else None)],
                calls = bot_calls (broadcast_loop e p cs tally0)\<rparr> \<and>
         success_count (broadcast_loop e p cs tally0) + failed_count (broadcast_loop e p cs tally0)
           = length cs \<and>
         length (failed_chats (broadcast_loop e p cs tally0))
           = failed_count (broadcast_loop e p cs tally0) \<and>
         chat_queries (bot_calls (broadcast_loop e p cs tally0)) = parsed_ids e cs \<and>
         ((success_count (send_to_chat e p item t) = success_count t + 1 \<and>
           failed_count (send_to_chat e p item t) = failed_count t \<and>
           failed_chats (send_to_chat e p item t) = failed_chats t) \<or>
          (success_count (send_to_chat e p item t) = success_count t \<and>
           failed_count (send_to_chat e p item t) = failed_count t + 1 \<and>
           length (failed_chats (send_to_chat e p item t)) = length (failed_chats t) + 1)) \<and>
         chat_sends (bot_calls (broadcast_loop e p cs tally0)) = eligible_ids e cs \<and>
         length (chat_sends (bot_calls (broadcast_loop e p cs tally0))) \<le> length cs \<and>
         success_count (broadcast_loop e p cs tally0)
           \<le> length (chat_sends (bot_calls (broadcast_loop e p cs tally0))) \<and>
         (\<exists>new. bot_calls (send_to_chat e p item t) = bot_calls t @ new \<and> length new \<le> 2 \<and>
                length (chat_queries new) \<le> 1 \<and> length (chat_sends new) \<le> 1)"
proof -
  have s1: "chat_sends (bot_calls (broadcast_loop e p cs tally0)) = eligible_ids e cs"
    using loop_sends [of e p cs tally0] by (simp add: tally0_fields)
  have s2: "length (chat_sends (bot_calls (broadcast_loop e p cs tally0))) \<le> length cs"
    unfolding s1 by (rule eligible_ids_length)
  have s3: "success_count (broadcast_loop e p cs tally0)
      \<le> length (chat_sends (bot_calls (broadcast_loop e p cs tally0)))"
    by (rule loop_success_sent) (simp add: tally0_fields)
  note s4 = send_to_chat_log [of e p item t]
  have a: "success_count (broadcast_loop e p cs tally0) + failed_count (broadcast_loop e p cs tally0)
      = length cs"
    using loop_counts [of e p cs tally0] by (simp add: tally0_fields)
  have b: "length (failed_chats (broadcast_loop e p cs tally0))
      = failed_count (broadcast_loop e p cs tally0)"
    by (rule loop_failed_eq) (simp add: tally0_fields)
  have c: "chat_queries (bot_calls (broadcast_loop e p cs tally0)) = parsed_ids e cs"
    using loop_queries [of e p cs tally0] by (simp add: tally0_fields)
  have r: "confirm_send e cs (Some p) =
           Inr \<lparr>next_state = END, data = None,
                replies = [Broadcasting (length cs),
                  BroadcastComplete (success_count (broadcast_loop e p cs tally0))
                    (failed_count (broadcast_loop e p cs tally0)) (length cs)
                    (take 5 (failed_chats (broadcast_loop e p cs tally0)))
                    (if length (failed_chats (broadcast_loop e p cs tally0)) > 5
                     then Some (length (failed_chats (broadcast_loop e p cs tally0)) - 5)
                     else None)],
                calls = bot_calls (broadcast_loop e p cs tally0)\<rparr>"
    using confirm_send_nonempty [OF assms, of e p] by (simp add: result_message_def)
  from r a b c send_to_chat_one_outcome [of e p item t] s1 s2 s3 s4
  show ?thesis by blast
qed

theorem broadcast_counts_witness:
  "sample_chats \<noteq> [] \<and> length sample_chats = 3 \<and>
   confirm_send sample_env sample_chats (Some sample_post) =
     Inr \<lparr>next_state = END, data = None,
          replies = [Broadcasting 3,
            BroadcastComplete 1 2 3
              [lit ''Team (not admin)'', lit ''Old (Forbidden: bot was kicked from)''] None],
          calls = [GetChatMember (- 1001) 42,
                   SendMessage (- 1001) (lit ''<b>Hello</b>'' @ [10, 10]) None,
                   GetChatMember (- 1002) 42, GetChatMember (- 1003) 42]\<rparr> \<and>
   success_count (broadcast_loop sample_env sample_post sample_chats tally0) +
   failed_count (broadcast_loop sample_env sample_post sample_chats tally0) = 3 \<and>
   chat_queries (bot_calls (broadcast_loop sample_env sample_post sample_chats tally0)) =
     [- 1001, - 1002, - 1003] \<and>
   chat_sends (bot_calls (broadcast_loop sample_env sample_post sample_chats tally0)) = [- 1001] \<and>
   eligible_ids sample_env sample_chats = [- 1001]"
proof -
  have n: "sample_chats \<noteq> []" "length sample_chats = 3"
    by (simp_all add: sample_chats_def)
  have g: "eligible_ids sample_env sample_chats = [- 1001]"
    by (simp add: sample_chats_def sample_env_def lit_def)
  from broadcast_counts [OF n(1), of sample_env sample_post] n(2) g
  show ?thesis by (simp add: sample_loop n)
qed

section \<open>The draft invariant\<close>

text \<open>
  Claim C4. The draft has a button text exactly when it has a url, after every
  operation of the wizard: a fresh draft has neither, leaving the url step by skip
  sets both to \<open>None\<close>, leaving it by a valid input sets both, and every update routed
  to a handler keeps the invariant of the session data.
\<close>

theorem draft_invariant:
  "(\<exists>r q. new_post ud = Inr r \<and> data r = Some q \<and> url q = None \<and> button_text q = None) \<and>
   (\<exists>r q. skip_url cs (Some p) = Inr r \<and> next_state r = PREVIEW \<and> data r = Some q \<and>
          url q = None \<and> button_text q = None) \<and>
   (\<forall>r. handle_url cs tx (Some p) = Inr r \<and> next_state r \<noteq> ENTERING_URL \<longrightarrow>
      (\<exists>q u b. next_state r = PREVIEW \<and> data r = Some q \<and> url q = Some u \<and>
               button_text q = Some b)) \<and>
   (\<forall>r. session_inv ud \<and> dispatch e cs st sg ud = Inr r \<longrightarrow> session_inv (data r))"
  using skip_url_clears [of cs p] handle_url_sets_both [of cs tx p] dispatch_inv [of ud e cs st sg]
  by (simp add: new_post_def)

theorem draft_invariant_witness:
  "session_inv (Some sample_post) \<and>
   dispatch sample_env sample_chats ENTERING_URL (Text (lit ''https://t.me/x | Join''))
     (Some sample_post) =
     Inr \<lparr>next_state = PREVIEW,
          data = Some (sample_post\<lparr>url := Some (lit ''https://t.me/x''),
                                    button_text := Some (lit ''Join'')\<rparr>),
          replies = [ButtonSaved,
            PostPreview (Some (lit ''Hello'')) None 3 False True
              (Some \<lparr>btn_text = Some (lit ''Join''), btn_url = Some (lit ''https://t.me/x'')\<rparr>)],
          calls = []\<rparr> \<and>
   session_inv (Some (sample_post\<lparr>url := Some (lit ''https://t.me/x''),
                                   button_text := Some (lit ''Join'')\<rparr>))"
proof -
  have i: "session_inv (Some sample_post)"
    by (simp add: draft_inv_def sample_post_def)
  have d: "dispatch sample_env sample_chats ENTERING_URL (Text (lit ''https://t.me/x | Join''))
     (Some sample_post) = handle_url sample_chats (lit ''https://t.me/x | Join'') (Some sample_post)"
    by (simp add: dispatch_def)
  from draft_invariant [where ud = "Some sample_post" and cs = sample_chats and p = sample_post
      and tx = "lit ''https://t.me/x | Join''" and e = sample_env and st = ENTERING_URL
      and sg = "Text (lit ''https://t.me/x | Join'')"]
    i d handle_url_sample
  show ?thesis by simp
qed

section \<open>The broadcast: chats where the bot is not an administrator\<close>

text \<open>
  Claim C7. For an item of the snapshot whose membership status is neither
  \<open>administrator\<close> nor \<open>creator\<close>, the loop records a failure with the reason
  \<open>not admin\<close>, queries the membership and sends nothing to that chat, and goes on
  with the items after it; the counters still cover the whole snapshot. With two chats,
  one of them not administered and the other delivered, the report is one success and
  one failure with that reason.
\<close>

theorem not_admin_recorded:
  assumes "(k, info) \<in> set cs" and "py_int e k = Inr cid"
    and "get_chat_member e cid (bot_id e) = Inr status"
    and "status \<noteq> lit ''administrator''" and "status \<noteq> lit ''creator''"
  shows "send_to_chat e p (k, info) t =
           t\<lparr>failed_count := failed_count t + 1,
             failed_chats := failed_chats t @ [chat_title info @ lit '' (not admin)''],
             bot_calls := bot_calls t @ [GetChatMember cid (bot_id e)]\<rparr> \<and>
         chat_title info @ lit '' (not admin)'' \<in> set (failed_chats (broadcast_loop e p cs tally0)) \<and>
         list_all (\<lambda>c. \<not> is_send_to cid c) (bot_calls (broadcast_loop e p cs tally0)) \<and>
         broadcast_loop e p (xs @ (k, info) # ys) t =
           broadcast_loop e p ys (send_to_chat e p (k, info) (broadcast_loop e p xs t)) \<and>
         success_count (broadcast_loop e p cs tally0) + failed_count (broadcast_loop e p cs tally0)
           = length cs"
proof -
  have step: "send_to_chat e p (k, info) t' =
           t'\<lparr>failed_count := failed_count t' + 1,
             failed_chats := failed_chats t' @ [chat_title info @ lit '' (not admin)''],
             bot_calls := bot_calls t' @ [GetChatMember cid (bot_id e)]\<rparr>" for t'
    using assms(2-5) by (rule send_to_chat_not_admin)
  have "chat_title info @ lit '' (not admin)'' \<in> set (failed_chats (send_to_chat e p (k, info) t'))" for t'
    by (simp add: step)
  with assms(1)
  have a: "chat_title info @ lit '' (not admin)'' \<in> set (failed_chats (broadcast_loop e p cs tally0))"
    by (rule loop_failed_entry)
  have b: "list_all (\<lambda>c. \<not> is_send_to cid c) (bot_calls (broadcast_loop e p cs tally0))"
    using assms(3-5) by (rule loop_no_send) (simp add: tally0_fields)
  have c: "broadcast_loop e p (xs @ (k, info) # ys) t =
           broadcast_loop e p ys (send_to_chat e p (k, info) (broadcast_loop e p xs t))"
    by (simp add: loop_append)
  have d: "success_count (broadcast_loop e p cs tally0) + failed_count (broadcast_loop e p cs tally0)
           = length cs"
    using loop_counts [of e p cs tally0] by (simp add: tally0_fields)
  from step [of t] a b c d show ?thesis by blast
qed

theorem not_admin_recorded_witness:
  "length (take 2 sample_chats) = 2 \<and>
   (lit ''-1002'', \<lparr>chat_title = lit ''Team'', chat_type = lit ''supergroup'',
                    added_at = lit ''2024-01-02T10:00:00''\<rparr>) \<in> set (take 2 sample_chats) \<and>
   py_int sample_env (lit ''-1002'') = Inr (- 1002) \<and>
   get_chat_member sample_env (- 1002) (bot_id sample_env) = Inr (lit ''member'') \<and>
   lit ''member'' \<noteq> lit ''administrator'' \<and> lit ''member'' \<noteq> lit ''creator'' \<and>
   confirm_send sample_env (take 2 sample_chats) (Some sample_post) =
     Inr \<lparr>next_state = END, data = None,
          replies = [Broadcasting 2, BroadcastComplete 1 1 2 [lit ''Team (not admin)''] None],
          calls = [GetChatMember (- 1001) 42,
                   SendMessage (- 1001) (lit ''<b>Hello</b>'' @ [10, 10]) None,
                   GetChatMember (- 1002) 42]\<rparr> \<and>
   lit ''Team'' @ lit '' (not admin)'' \<in>
     set (failed_chats (broadcast_loop sample_env sample_post (take 2 sample_chats) tally0)) \<and>
   list_all (\<lambda>c. \<not> is_send_to (- 1002) c)
     (bot_calls (broadcast_loop sample_env sample_post (take 2 sample_chats) tally0))"
proof -
  have m: "(lit ''-1002'', \<lparr>chat_title = lit ''Team'', chat_type = lit ''supergroup'',
                    added_at = lit ''2024-01-02T10:00:00''\<rparr>) \<in> set (take 2 sample_chats)"
    by (simp add: sample_chats_def)
  have n: "take 2 sample_chats \<noteq> []" "length (take 2 sample_chats) = 2"
    by (simp_all add: sample_chats_def)
  have e: "py_int sample_env (lit ''-1002'') = Inr (- 1002)"
    by (simp add: sample_env_def lit_def)
  have g: "get_chat_member sample_env (- 1002) (bot_id sample_env) = Inr (lit ''member'')"
    by (simp add: sample_env_def)
  have s: "lit ''member'' \<noteq> lit ''administrator''" "lit ''member'' \<noteq> lit ''creator''"
    by (simp_all add: lit_def)
  have c: "confirm_send sample_env (take 2 sample_chats) (Some sample_post) =
     Inr \<lparr>next_state = END, data = None,
          replies = [Broadcasting 2, BroadcastComplete 1 1 2 [lit ''Team (not admin)''] None],
          calls = [GetChatMember (- 1001) 42,
                   SendMessage (- 1001) (lit ''<b>Hello</b>'' @ [10, 10]) None,
                   GetChatMember (- 1002) 42]\<rparr>"
    using n(2) by (simp add: confirm_send_nonempty [OF n(1)] sample_loop2 result_message_def)
  from not_admin_recorded [OF m e g s, of sample_post tally0 "[]" "[]"] m n e g s c
  show ?thesis by simp
qed

section \<open>The broadcast: errors raised for one chat\<close>

text \<open>
  Claim C8. For an item of the snapshot whose key conversion, membership query or send
  raises an error, the loop records a failure whose reason is the first 30 characters of
  the error text at most, and goes on with the items after it: the counters still cover
  the whole snapshot.
\<close>

theorem dispatch_error_recorded:
  assumes "(k, info) \<in> set cs"
    and "py_int e k = Inl err \<or>
     (\<exists>cid. py_int e k = Inr cid \<and>
        (get_chat_member e cid (bot_id e) = Inl err \<or>
         (\<exists>status. get_chat_member e cid (bot_id e) = Inr status \<and>
            status \<in> set [lit ''administrator'', lit ''creator''] \<and>
            (if truthy (image_file p)
             then send_photo e cid (the (image_file p)) (message_text p) (reply_markup p)
             else send_message e cid (message_text p) (reply_markup p)) = Inl err)))"
  shows "success_count (send_to_chat e p (k, info) t) = success_count t \<and>
         failed_count (send_to_chat e p (k, info) t) = failed_count t + 1 \<and>
         failed_chats (send_to_chat e p (k, info) t) =
           failed_chats t @ [chat_title info @ lit '' ('' @ take 30 err @ lit '')''] \<and>
         length (take 30 err) \<le> 30 \<and>
         chat_title info @ lit '' ('' @ take 30 err @ lit '')''
           \<in> set (failed_chats (broadcast_loop e p cs tally0)) \<and>
         broadcast_loop e p (xs @ (k, info) # ys) t =
           broadcast_loop e p ys (send_to_chat e p (k, info) (broadcast_loop e p xs t)) \<and>
         success_count (broadcast_loop e p cs tally0) + failed_count (broadcast_loop e p cs tally0)
           = length cs"
proof -
  note step = send_to_chat_error [OF assms(2)]
  have "chat_title info @ lit '' ('' @ take 30 err @ lit '')''
      \<in> set (failed_chats (send_to_chat e p (k, info) t'))" for t'
    using step [of info t'] by simp
  with assms(1)
  have a: "chat_title info @ lit '' ('' @ take 30 err @ lit '')''
           \<in> set (failed_chats (broadcast_loop e p cs tally0))"
    by (rule loop_failed_entry)
  have c: "broadcast_loop e p (xs @ (k, info) # ys) t =
           broadcast_loop e p ys (send_to_chat e p (k, info) (broadcast_loop e p xs t))"
    by (simp add: loop_append)
  have d: "success_count (broadcast_loop e p cs tally0) + failed_count (broadcast_loop e p cs tally0)
           = length cs"
    using loop_counts [of e p cs tally0] by (simp add: tally0_fields)
  from step [of info t] a c d show ?thesis by simp
qed

theorem dispatch_error_recorded_witness:
  "(lit ''-1003'', \<lparr>chat_title = lit ''Old'', chat_type = lit ''group'',
                    added_at = lit ''2024-01-03T10:00:00''\<rparr>) \<in> set sample_chats \<and>
   py_int sample_env (lit ''-1003'') = Inr (- 1003) \<and>
   get_chat_member sample_env (- 1003) (bot_id sample_env) =
     Inl (lit ''Forbidden: bot was kicked from the group chat'') \<and>
   take 30 (lit ''Forbidden: bot was kicked from the group chat'') =
     lit ''Forbidden: bot was kicked from'' \<and>
   failed_chats (broadcast_loop sample_env sample_post sample_chats tally0) =
     [lit ''Team (not admin)'', lit ''Old (Forbidden: bot was kicked from)''] \<and>
   lit ''Old'' @ lit '' ('' @ lit ''Forbidden: bot was kicked from'' @ lit '')''
     \<in> set (failed_chats (broadcast_loop sample_env sample_post sample_chats tally0)) \<and>
   success_count (broadcast_loop sample_env sample_post sample_chats tally0) +
   failed_count (broadcast_loop sample_env sample_post sample_chats tally0) = length sample_chats"
proof -
  have m: "(lit ''-1003'', \<lparr>chat_title = lit ''Old'', chat_type = lit ''group'',
                    added_at = lit ''2024-01-03T10:00:00''\<rparr>) \<in> set sample_chats"
    by (simp add: sample_chats_def)
  have e: "py_int sample_env (lit ''-1003'') = Inr (- 1003)"
    by (simp add: sample_env_def lit_def)
  have g: "get_chat_member sample_env (- 1003) (bot_id sample_env) =
     Inl (lit ''Forbidden: bot was kicked from the group chat'')"
    by (simp add: sample_env_def)
  have k: "take 30 (lit ''Forbidden: bot was kicked from the group chat'') =
     lit ''Forbidden: bot was kicked from''"
    by (simp add: lit_def)
  have h: "py_int sample_env (lit ''-1003'') =
        Inl (lit ''Forbidden: bot was kicked from the group chat'') \<or>
     (\<exists>cid. py_int sample_env (lit ''-1003'') = Inr cid \<and>
        (get_chat_member sample_env cid (bot_id sample_env) =
           Inl (lit ''Forbidden: bot was kicked from the group chat'') \<or>
         (\<exists>status. get_chat_member sample_env cid (bot_id sample_env) = Inr status \<and>
            status \<in> set [lit ''administrator'', lit ''creator''] \<and>
            (if truthy (image_file sample_post)
             then send_photo sample_env cid (the (image_file sample_post))
                    (message_text sample_post) (reply_markup sample_post)
             else send_message sample_env cid (message_text sample_post)
                    (reply_markup sample_post)) =
              Inl (lit ''Forbidden: bot was kicked from the group chat''))))"
    using e g by blast
  from dispatch_error_recorded [OF m h, of tally0 "[]" "[]"] m e g k
  show ?thesis by (simp add: sample_loop)
qed

section \<open>Blank titles\<close>

text \<open>
  Claim C10. A title input made of whitespace only (or empty) is accepted by the title
  step, which stores the empty string as title. The message composed for a draft with
  the empty title has no title line, and with no description and no image the text sent
  to an administered chat is empty.
\<close>

theorem blank_title_accepted:
  assumes "list_all isspace tx"
  shows "handle_title tx (Some p) =
           Inr \<lparr>next_state = ENTERING_DESCRIPTION, data = Some (p\<lparr>title := Some []\<rparr>),
                replies = [TitleSaved, Step3_Description], calls = []\<rparr> \<and>
         message_text (q\<lparr>title := Some []\<rparr>) =
           (if truthy (description q) then the (description q) else []) \<and>
         (py_int e k = Inr cid \<and> get_chat_member e cid (bot_id e) = Inr (lit ''administrator'') \<longrightarrow>
            bot_calls (send_to_chat e (p\<lparr>image_file := None, title := Some [], description := None\<rparr>)
                         (k, info) t) =
              bot_calls t @
                [GetChatMember cid (bot_id e),
                 SendMessage cid []
                   (reply_markup (p\<lparr>image_file := None, title := Some [], description := None\<rparr>))])"
proof -
  from assms have s: "strip tx = []" by (simp add: strip_all_space list_all_iff)
  then have "length (strip tx) \<le> 200" by simp
  from handle_title_accept [OF this, of p] s
  have a: "handle_title tx (Some p) =
           Inr \<lparr>next_state = ENTERING_DESCRIPTION, data = Some (p\<lparr>title := Some []\<rparr>),
                replies = [TitleSaved, Step3_Description], calls = []\<rparr>"
    by simp
  have m: "message_text (p\<lparr>image_file := None, title := Some [], description := None\<rparr>) = []"
    by (simp add: message_text_def)
  have c: "py_int e k = Inr cid \<and> get_chat_member e cid (bot_id e) = Inr (lit ''administrator'') \<longrightarrow>
            bot_calls (send_to_chat e (p\<lparr>image_file := None, title := Some [], description := None\<rparr>)
                         (k, info) t) =
              bot_calls t @
                [GetChatMember cid (bot_id e),
                 SendMessage cid []
                   (reply_markup (p\<lparr>image_file := None, title := Some [], description := None\<rparr>))]"
    using send_to_chat_admin_text
      [of e k cid "lit ''administrator''" "p\<lparr>image_file := None, title := Some [], description := None\<rparr>" info t]
      m
    by auto
  from a message_text_blank_title [of q] c show ?thesis by blast
qed

theorem blank_title_accepted_witness:
  "list_all isspace (lit ''   '') \<and>
   handle_title (lit ''   '') (Some sample_post) =
     Inr \<lparr>next_state = ENTERING_DESCRIPTION, data = Some (sample_post\<lparr>title := Some []\<rparr>),
          replies = [TitleSaved, Step3_Description], calls = []\<rparr> \<and>
   message_text (sample_post\<lparr>title := Some []\<rparr>) = [] \<and>
   bot_calls (send_to_chat sample_env (sample_post\<lparr>title := Some []\<rparr>) (hd sample_chats) tally0) =
     [GetChatMember (- 1001) 42, SendMessage (- 1001) [] None]"
proof -
  have w: "list_all isspace (lit ''   '')"
    by (simp add: lit_def isspace_def)
  have h: "hd sample_chats =
      (lit ''-1001'', \<lparr>chat_title = lit ''News'', chat_type = lit ''channel'',
                       added_at = lit ''2024-01-01T10:00:00''\<rparr>)"
    by (simp add: sample_chats_def)
  have e: "py_int sample_env (lit ''-1001'') = Inr (- 1001)"
    "get_chat_member sample_env (- 1001) (bot_id sample_env) = Inr (lit ''administrator'')"
    "bot_id sample_env = 42"
    by (simp_all add: sample_env_def)
  have p: "sample_post\<lparr>image_file := None, title := Some [], description := None\<rparr>
      = sample_post\<lparr>title := Some []\<rparr>"
    by (simp add: sample_post_def)
  have r: "reply_markup (sample_post\<lparr>title := Some []\<rparr>) = None"
    "description sample_post = None"
    by (simp_all add: reply_markup_def sample_post_def)
  have t: "bot_calls tally0 = []" by (simp add: tally0_def)
  from blank_title_accepted [OF w, of sample_post sample_post sample_env "lit ''-1001''" "- 1001"
      "\<lparr>chat_title = lit ''News'', chat_type = lit ''channel'', added_at = lit ''2024-01-01T10:00:00''\<rparr>"
      tally0]
    w h e p r t
  show ?thesis by simp
qed

end
